theory Spec2Isabelle
  imports Main "HOL-Library.Sublist"
begin

section \<open>Exceptions\<close>

text \<open>
  The exception classes of \<^verbatim>\<open>exceptions.py\<close> that the code raises
  (\<^verbatim>\<open>IPv4AddressException\<close>, \<^verbatim>\<open>ParserExceptionInvalidEntry\<close>), pydantic's
  \<^verbatim>\<open>ValidationError\<close>, and the built-in exceptions that the interpreter raises for
  \<^verbatim>\<open>raise NotImplemented\<close>, for comparing \<^verbatim>\<open>None\<close> with a number and for a method
  call on \<^verbatim>\<open>None\<close>. The messages are left out.
\<close>

datatype error =
    IPv4AddressException
  | ParserExceptionInvalidEntry
  | ValidationError
  | TypeError
  | AttributeError

section \<open>The regular expressions of the source\<close>

text \<open>
  Text is a \<^typ>\<open>string\<close>, one \<^typ>\<open>char\<close> per code point, so the model covers the
  texts whose code points are below 256. The patterns of the source use literals,
  alternation, an optional group, capturing groups, \<^verbatim>\<open>$\<close>, and \<^verbatim>\<open>+\<close> and \<^verbatim>\<open>*\<close> over a
  single character class. The matcher is a backtracking one, like Python's: it returns
  every way to match a prefix of the text, in the order in which Python tries them
  (greedy repetition: longest first; alternation: left first; an optional group: with
  the group first), each with the groups captured on the way and the text that is left.
\<close>

datatype gid = Pos nat | Named string

type_synonym captures = "(gid \<times> string) list"

datatype rx =
    Lit string
  | Plus "char \<Rightarrow> bool"
  | Star "char \<Rightarrow> bool"
  | Seq rx rx
  | Alt rx rx
  | Opt rx
  | Grp gid rx
  | Eol

fun rmatch :: "rx \<Rightarrow> string \<Rightarrow> captures \<Rightarrow> (captures \<times> string) list" where
  "rmatch (Lit l) s c = (if prefix l s then [(c, drop (length l) s)] else [])"
| "rmatch (Plus p) s c =
     map (\<lambda>k. (c, drop k s)) (rev [1 ..< Suc (length (takeWhile p s))])"
| "rmatch (Star p) s c =
     map (\<lambda>k. (c, drop k s)) (rev [0 ..< Suc (length (takeWhile p s))])"
| "rmatch (Seq a b) s c =
     concat (map (\<lambda>(c', s'). rmatch b s' c') (rmatch a s c))"
| "rmatch (Alt a b) s c = rmatch a s c @ rmatch b s c"
| "rmatch (Opt a) s c = rmatch a s c @ [(c, s)]"
| "rmatch (Grp g a) s c =
     map (\<lambda>(c', s'). ((g, take (length s - length s') s) # c', s')) (rmatch a s c)"
| "rmatch Eol s c = (if s = [] \<or> s = [CHR 0x0A] then [(c, s)] else [])"

text \<open>
  The match that Python reports at an offset is the first one that the backtracking
  finds there.
\<close>

definition first_match :: "rx \<Rightarrow> string \<Rightarrow> captures \<Rightarrow> (captures \<times> string) option" where
  "first_match r s c = (case rmatch r s c of [] \<Rightarrow> None | x # xs \<Rightarrow> Some x)"

text \<open>
  \<^verbatim>\<open>re.search\<close> for a pattern that begins with \<^verbatim>\<open>^\<close> (no \<^verbatim>\<open>MULTILINE\<close> flag): the
  only offset at which it can match is 0. The argument is the pattern after its
  \<^verbatim>\<open>^\<close>.
\<close>

definition re_search :: "rx \<Rightarrow> string \<Rightarrow> captures option" where
  "re_search r s = map_option fst (first_match r s [])"

text \<open>\<^verbatim>\<open>m.group(g)\<close>: the text of the group, \<^verbatim>\<open>None\<close> for a group that took no part.\<close>

definition group :: "captures \<Rightarrow> gid \<Rightarrow> string option" where
  "group m g = map_of m g"

text \<open>
  The character classes, on code points below 256: \<^verbatim>\<open>\s\<close> is Unicode white space
  (tab to carriage return, the four separators 0x1C to 0x1F, space, 0x85, 0xA0),
  \<^verbatim>\<open>\d\<close> is a decimal digit, \<^verbatim>\<open>\S\<close> is the complement of \<^verbatim>\<open>\s\<close>, and \<^verbatim>\<open>.\<close> is
  anything but a newline.
\<close>

definition cls_s :: "char \<Rightarrow> bool" where
  "cls_s ch = (ch \<in> set [CHR 0x09, CHR 0x0A, CHR 0x0B, CHR 0x0C, CHR 0x0D,
                         CHR 0x1C, CHR 0x1D, CHR 0x1E, CHR 0x1F, CHR 0x20,
                         CHR 0x85, CHR 0xA0])"

definition cls_S :: "char \<Rightarrow> bool" where
  "cls_S ch = (\<not> cls_s ch)"

definition cls_d :: "char \<Rightarrow> bool" where
  "cls_d ch = (ch \<in> set ''0123456789'')"

definition cls_09 :: "char \<Rightarrow> bool" where
  "cls_09 ch = (ch \<in> set ''0123456789'')"

definition cls_09dot :: "char \<Rightarrow> bool" where
  "cls_09dot ch = (ch \<in> set ''0123456789.'')"

definition cls_any :: "char \<Rightarrow> bool" where
  "cls_any ch = (ch \<noteq> CHR 0x0A)"

section \<open>Built-ins of Python\<close>

text \<open>
  \<^verbatim>\<open>int(s)\<close> on a run of decimal digits, which is all it receives here, and \<^verbatim>\<open>str(n)\<close>
  on an integer.
\<close>

definition digit_val :: "char \<Rightarrow> nat" where
  "digit_val ch = of_char ch - of_char CHR ''0''"

definition py_int :: "string \<Rightarrow> int" where
  "py_int s = int (foldl (\<lambda>a ch. 10 * a + digit_val ch) 0 s)"

definition digit_chr :: "nat \<Rightarrow> char" where
  "digit_chr d = char_of (of_char CHR ''0'' + d)"

function str_nat :: "nat \<Rightarrow> string" where
  "str_nat n = (if n < 10 then [digit_chr n] else str_nat (n div 10) @ [digit_chr (n mod 10)])"
  by pat_completeness auto
termination
  by (relation "measure id") auto

declare str_nat.simps [simp del]

definition py_str :: "int \<Rightarrow> string" where
  "py_str i = (if i < 0 then CHR ''-'' # str_nat (nat (- i)) else str_nat (nat i))"

text \<open>\<^verbatim>\<open>sep.join(xs)\<close> and \<^verbatim>\<open>s.split('\n')\<close>.\<close>

fun join :: "string \<Rightarrow> string list \<Rightarrow> string" where
  "join sep [] = []"
| "join sep [x] = x"
| "join sep (x # y # ys) = x @ sep @ join sep (y # ys)"

fun split_nl :: "string \<Rightarrow> string list" where
  "split_nl [] = [[]]"
| "split_nl (ch # cs) =
     (if ch = CHR 0x0A then [] # split_nl cs
      else (case split_nl cs of [] \<Rightarrow> [[ch]] | l # ls \<Rightarrow> (ch # l) # ls))"

section \<open>models.py: IPv4Address\<close>

record IPv4Address =
  ip :: int

text \<open>
  The pattern of \<^verbatim>\<open>_from_string\<close>:
  \<^verbatim>\<open>^([0-9]+)\.([0-9]+)\.([0-9]+)\.([0-9]+)$\<close>
\<close>

definition octets_rx :: rx where
  "octets_rx =
     Seq (Grp (Pos 1) (Plus cls_09)) (Seq (Lit ''.'')
    (Seq (Grp (Pos 2) (Plus cls_09)) (Seq (Lit ''.'')
    (Seq (Grp (Pos 3) (Plus cls_09)) (Seq (Lit ''.'')
    (Seq (Grp (Pos 4) (Plus cls_09)) Eol))))))"

text \<open>
  The loop of \<^verbatim>\<open>_from_string\<close> over \<^verbatim>\<open>enumerate(range(1, 5))\<close>:
  \<^verbatim>\<open>final_number += int(octets[octet]) << ((3 - index) * 8)\<close>.
\<close>

fun octet_loop :: "captures \<Rightarrow> (nat \<times> nat) list \<Rightarrow> int \<Rightarrow> error + int" where
  "octet_loop octets [] final_number = Inr final_number"
| "octet_loop octets ((index, octet) # rest) final_number =
     (case group octets (Pos octet) of
        None \<Rightarrow> Inl TypeError
      | Some t \<Rightarrow>
          octet_loop octets rest
            (final_number + push_bit ((3 - index) * 8) (py_int t)))"

definition from_string :: "string \<Rightarrow> error + int" where
  "from_string s =
     (case re_search octets_rx s of
        Some octets \<Rightarrow> octet_loop octets (zip [0 ..< 4] [1 ..< 5]) 0
      | None \<Rightarrow> Inl IPv4AddressException)"

text \<open>
  \<^verbatim>\<open>IPv4Address.__init__(ip)\<close>, with \<^verbatim>\<open>ip: int | str | None\<close>. A string goes through
  \<^verbatim>\<open>_from_string\<close>; then \<^verbatim>\<open>ip < 0 or ip >= math.pow(2, 32)\<close> raises (Python compares
  an integer with the float 4294967296.0 exactly); \<^verbatim>\<open>None < 0\<close> is a TypeError.
\<close>

datatype ip_arg = IntArg int | StrArg string | NoneArg

definition check_range :: "int \<Rightarrow> error + IPv4Address" where
  "check_range i =
     (if i < 0 \<or> i \<ge> 2 ^ 32 then Inl IPv4AddressException else Inr \<lparr>ip = i\<rparr>)"

fun IPv4Address_init :: "ip_arg \<Rightarrow> error + IPv4Address" where
  "IPv4Address_init (StrArg s) =
     (case from_string s of Inl e \<Rightarrow> Inl e | Inr i \<Rightarrow> check_range i)"
| "IPv4Address_init (IntArg i) = check_range i"
| "IPv4Address_init NoneArg = Inl TypeError"

text \<open>
  \<^verbatim>\<open>IPv4Address.__str__\<close>: for \<^verbatim>\<open>octet\<close> in \<^verbatim>\<open>range(0, 4)\<close>,
  \<^verbatim>\<open>bitshift = (3 - octet) * 8\<close> and
  \<^verbatim>\<open>number = (self.ip & (255 << bitshift)) >> bitshift\<close>; the four \<^verbatim>\<open>str(number)\<close>
  are joined with dots.
\<close>

definition IPv4Address_str :: "IPv4Address \<Rightarrow> string" where
  "IPv4Address_str self =
     join ''.''
       (map (\<lambda>octet.
               let bitshift = (3 - octet) * 8;
                   number = drop_bit bitshift (and (ip self) (push_bit bitshift 255))
               in py_str number)
            [0 ..< 4])"

section \<open>models.py: the access list\<close>

datatype AccessListAction = DENY | PERMIT

datatype AccessListProtocol = IP | UDP | TCP | ICMP

record ACEIPv4Address =
  address :: IPv4Address
  wildcard_mask :: IPv4Address

text \<open>
  \<^verbatim>\<open>IPv4Packet\<close>; its fields carry the prefix \<^verbatim>\<open>pkt_\<close>, since the entry below has
  fields of the same names.
\<close>

record IPv4Packet =
  pkt_protocol :: AccessListProtocol
  pkt_source_ipv4 :: IPv4Address
  pkt_source_port :: "int option"
  pkt_destination_ipv4 :: IPv4Address
  pkt_destination_port :: "int option"

text \<open>
  \<^verbatim>\<open>AccessListEntry\<close>. The two ports are declared \<^verbatim>\<open>int | None\<close>, but the parser
  assigns them after construction (\<^verbatim>\<open>ace_entry.source_port = ips.group('src_port')\<close>),
  and pydantic validates no assignment unless \<^verbatim>\<open>validate_assignment\<close> is set: the field
  then holds the captured text as it is. The model keeps that text.
\<close>

record AccessListEntry =
  index_number :: int
  action :: AccessListAction
  protocol :: AccessListProtocol
  source_ipv4 :: "ACEIPv4Address option"
  source_port :: "string option"
  destination_ipv4 :: "ACEIPv4Address option"
  destination_port :: "string option"

record AccessList =
  aces :: "AccessListEntry list"

text \<open>
  \<^verbatim>\<open>AccessListEntry.is_hit\<close>: its body is \<^verbatim>\<open>raise NotImplemented\<close>.
  \<^verbatim>\<open>NotImplemented\<close> is no exception, so the statement raises a TypeError; the
  method returns for no entry and no packet.
\<close>

definition is_hit :: "AccessListEntry \<Rightarrow> IPv4Packet \<Rightarrow> error + bool" where
  "is_hit self packet = Inl TypeError"

text \<open>
  The constructor call
  \<^verbatim>\<open>AccessListEntry(index_number=..., action=..., protocol=...)\<close> with the three
  captured texts: pydantic turns the digits into an integer and the two words into the
  enumeration members of that value, and raises a ValidationError for a word that is
  no member (or for \<^verbatim>\<open>None\<close>). The other four fields take their default \<^verbatim>\<open>None\<close>.
\<close>

definition AccessListAction_of :: "string \<Rightarrow> AccessListAction option" where
  "AccessListAction_of v =
     (if v = ''deny'' then Some DENY
      else if v = ''permit'' then Some PERMIT
      else None)"

definition AccessListProtocol_of :: "string \<Rightarrow> AccessListProtocol option" where
  "AccessListProtocol_of v =
     (if v = ''ip'' then Some IP
      else if v = ''udp'' then Some UDP
      else if v = ''tcp'' then Some TCP
      else if v = ''icmp'' then Some ICMP
      else None)"

definition AccessListEntry_init ::
    "string option \<Rightarrow> string option \<Rightarrow> string option \<Rightarrow> error + AccessListEntry" where
  "AccessListEntry_init number act proto =
     (case (number, Option.bind act AccessListAction_of,
            Option.bind proto AccessListProtocol_of) of
        (Some n, Some a, Some p) \<Rightarrow>
          Inr \<lparr>index_number = py_int n, action = a, protocol = p,
               source_ipv4 = None, source_port = None,
               destination_ipv4 = None, destination_port = None\<rparr>
      | _ \<Rightarrow> Inl ValidationError)"

section \<open>acl_parser.py: CiscoIOSXEACLParser\<close>

text \<open>
  The first pattern of \<^verbatim>\<open>parse_ace_config\<close>:
  \<^verbatim>\<open>^\s+(?P<number>\d+)\s+(?P<action>permit|deny)\s+(?P<protocol>\S+)\s+(?P<line>.+)$\<close>
\<close>

definition ace_rx :: rx where
  "ace_rx =
     Seq (Plus cls_s) (Seq (Grp (Named ''number'') (Plus cls_d))
    (Seq (Plus cls_s) (Seq (Grp (Named ''action'') (Alt (Lit ''permit'') (Lit ''deny'')))
    (Seq (Plus cls_s) (Seq (Grp (Named ''protocol'') (Plus cls_S))
    (Seq (Plus cls_s) (Seq (Grp (Named ''line'') (Plus cls_any)) Eol)))))))"

text \<open>
  \<^verbatim>\<open>s.replace(old, new)\<close>: from the left, every occurrence of \<^verbatim>\<open>old\<close> that does not
  overlap an earlier one. For an empty \<^verbatim>\<open>old\<close> Python puts \<^verbatim>\<open>new\<close> before every
  character and at the end.
\<close>

function str_replace :: "string \<Rightarrow> string \<Rightarrow> string \<Rightarrow> string" where
  "str_replace old new s =
     (if old = [] then new @ concat (map (\<lambda>ch. ch # new) s)
      else if s = [] then []
      else if prefix old s then new @ str_replace old new (drop (length old) s)
      else hd s # str_replace old new (tl s))"
  by pat_completeness auto
termination
  by (relation "measure (\<lambda>(old, new, s). length s)") auto

declare str_replace.simps [simp del]

text \<open>
  \<^verbatim>\<open>re.sub(pattern, repl, s)\<close> for a pattern that matches no empty text: from the left,
  at each offset the first match that the backtracking finds is replaced by the
  expansion of the template and the scan goes on behind it; where nothing matches, the
  character is copied.
\<close>

function re_sub :: "rx \<Rightarrow> (captures \<Rightarrow> string) \<Rightarrow> string \<Rightarrow> string" where
  "re_sub r repl s =
     (if s = [] then []
      else (case first_match r s [] of
              None \<Rightarrow> hd s # re_sub r repl (tl s)
            | Some (m, rest) \<Rightarrow>
                if length rest < length s then repl m @ re_sub r repl rest
                else hd s # re_sub r repl (tl s)))"
  by pat_completeness auto
termination
  by (relation "measure (\<lambda>(r, repl, s). length s)") auto

declare re_sub.simps [simp del]

text \<open>
  The pattern \<^verbatim>\<open>host ([0-9.]+)\<close> and the template \<^verbatim>\<open>\1 0.0.0.0\<close> of the second
  substitution.
\<close>

definition host_rx :: rx where
  "host_rx = Seq (Lit ''host '') (Grp (Pos 1) (Plus cls_09dot))"

definition host_repl :: "captures \<Rightarrow> string" where
  "host_repl m = (case group m (Pos 1) of Some t \<Rightarrow> t | None \<Rightarrow> []) @ '' 0.0.0.0''"

text \<open>
  The two substitutions of \<^verbatim>\<open>parse_ace_config\<close> on the rest of the line:
  \<^verbatim>\<open>line = line.replace('any', '0.0.0.0 255.255.255.255')\<close>, then
  \<^verbatim>\<open>line = re.sub(r'host ([0-9.]+)', r'\1 0.0.0.0', line)\<close>.
\<close>

definition replace_any :: "string \<Rightarrow> string" where
  "replace_any line = str_replace ''any'' ''0.0.0.0 255.255.255.255'' line"

definition sub_host :: "string \<Rightarrow> string" where
  "sub_host line = re_sub host_rx host_repl line"

text \<open>
  The second pattern:
  \<^verbatim>\<open>^(?P<source>(?P<src_ip>[0-9.]+)\s+(?P<src_wildcard>[0-9.]+)\s+(eq\s+(?P<src_port>[0-9]+)\s*)?)\<close>
  \<^verbatim>\<open>(?P<destination>(?P<dst_ip>[0-9.]+)\s+(?P<dst_wildcard>[0-9.]+)\s*(eq\s+(?P<dst_port>[0-9]+))?)$\<close>
  The two groups without a name are the fourth and the ninth.
\<close>

definition ips_rx :: rx where
  "ips_rx =
     Seq (Grp (Named ''source'')
            (Seq (Grp (Named ''src_ip'') (Plus cls_09dot)) (Seq (Plus cls_s)
            (Seq (Grp (Named ''src_wildcard'') (Plus cls_09dot)) (Seq (Plus cls_s)
            (Opt (Grp (Pos 4)
                   (Seq (Lit ''eq'') (Seq (Plus cls_s)
                   (Seq (Grp (Named ''src_port'') (Plus cls_09)) (Star cls_s)))))))))))
    (Seq (Grp (Named ''destination'')
            (Seq (Grp (Named ''dst_ip'') (Plus cls_09dot)) (Seq (Plus cls_s)
            (Seq (Grp (Named ''dst_wildcard'') (Plus cls_09dot)) (Seq (Star cls_s)
            (Opt (Grp (Pos 9)
                   (Seq (Lit ''eq'') (Seq (Plus cls_s)
                   (Grp (Named ''dst_port'') (Plus cls_09)))))))))))
     Eol)"

text \<open>\<^verbatim>\<open>IPv4Address(m.group(g))\<close>.\<close>

definition IPv4Address_of_group :: "string option \<Rightarrow> error + IPv4Address" where
  "IPv4Address_of_group g =
     IPv4Address_init (case g of Some t \<Rightarrow> StrArg t | None \<Rightarrow> NoneArg)"

text \<open>
  \<^verbatim>\<open>ACEIPv4Address(address=IPv4Address(a), wildcard_mask=IPv4Address(w))\<close>: the
  address is built first.
\<close>

definition ACEIPv4Address_of_groups ::
    "string option \<Rightarrow> string option \<Rightarrow> error + ACEIPv4Address" where
  "ACEIPv4Address_of_groups a w =
     (case IPv4Address_of_group a of
        Inl e \<Rightarrow> Inl e
      | Inr addr \<Rightarrow>
          (case IPv4Address_of_group w of
             Inl e \<Rightarrow> Inl e
           | Inr wmask \<Rightarrow> Inr \<lparr>address = addr, wildcard_mask = wmask\<rparr>))"

text \<open>
  \<^verbatim>\<open>parse_ace_config\<close>. The entry is constructed before the rest of the line is
  looked at, so a ValidationError comes before the second
  ParserExceptionInvalidEntry; nothing in the method catches an exception.
\<close>

definition parse_ace_config :: "string \<Rightarrow> error + AccessListEntry" where
  "parse_ace_config ace_config =
     (case re_search ace_rx ace_config of
        None \<Rightarrow> Inl ParserExceptionInvalidEntry
      | Some exploded_line \<Rightarrow>
          (case AccessListEntry_init (group exploded_line (Named ''number''))
                  (group exploded_line (Named ''action''))
                  (group exploded_line (Named ''protocol'')) of
             Inl e \<Rightarrow> Inl e
           | Inr ace_entry \<Rightarrow>
               (case group exploded_line (Named ''line'') of
                  None \<Rightarrow> Inl AttributeError
                | Some line \<Rightarrow>
                    (case re_search ips_rx (sub_host (replace_any line)) of
                       None \<Rightarrow> Inl ParserExceptionInvalidEntry
                     | Some ips \<Rightarrow>
                         (case ACEIPv4Address_of_groups (group ips (Named ''src_ip''))
                                 (group ips (Named ''src_wildcard'')) of
                            Inl e \<Rightarrow> Inl e
                          | Inr src \<Rightarrow>
                              (case ACEIPv4Address_of_groups (group ips (Named ''dst_ip''))
                                      (group ips (Named ''dst_wildcard'')) of
                                 Inl e \<Rightarrow> Inl e
                               | Inr dst \<Rightarrow>
                                   Inr (ace_entry
                                     \<lparr>source_ipv4 := Some src,
                                      source_port := group ips (Named ''src_port''),
                                      destination_ipv4 := Some dst,
                                      destination_port := group ips (Named ''dst_port'')\<rparr>)))))))"

text \<open>
  \<^verbatim>\<open>parse_acl_config\<close>. The logger is the only state: the model returns the records
  that were logged next to the outcome, also when an exception ends the call. The loop
  over \<^verbatim>\<open>acl.split('\n')\<close> catches ParserExceptionInvalidEntry and nothing else.
\<close>

datatype log_record = WARNING string

definition skipping :: "string \<Rightarrow> log_record" where
  "skipping ace_config = WARNING (''Skipping invalid line \"'' @ ace_config @ ''\"'')"

fun parse_lines ::
    "string list \<Rightarrow> AccessListEntry list \<Rightarrow> log_record list
       \<Rightarrow> (error + AccessListEntry list) \<times> log_record list" where
  "parse_lines [] aces_acc logged = (Inr aces_acc, logged)"
| "parse_lines (ace_config # rest) aces_acc logged =
     (case parse_ace_config ace_config of
        Inr ace \<Rightarrow> parse_lines rest (aces_acc @ [ace]) logged
      | Inl e \<Rightarrow>
          if e = ParserExceptionInvalidEntry
          then parse_lines rest aces_acc (logged @ [skipping ace_config])
          else (Inl e, logged))"

definition parse_acl_config :: "string \<Rightarrow> (error + AccessList) \<times> log_record list" where
  "parse_acl_config acl =
     (case parse_lines (split_nl acl) [] [] of
        (Inl e, logged) \<Rightarrow> (Inl e, logged)
      | (Inr aces_acc, logged) \<Rightarrow> (Inr \<lparr>aces = aces_acc\<rparr>, logged))"

section \<open>Auxiliary facts\<close>

lemma py_int_nonneg: "0 \<le> py_int s"
  by (simp add: py_int_def)

lemma AccessListEntry_init_index:
  "AccessListEntry_init n a p = Inr e \<Longrightarrow> 0 \<le> index_number e"
  unfolding AccessListEntry_init_def
  by (auto split: option.splits simp: py_int_nonneg)

subsection \<open>The first match of a sequence, a literal, a run and a group\<close>

lemma first_match_Seq:
  "first_match a s c = Some (c1, s1) \<Longrightarrow> first_match b s1 c1 = Some y
     \<Longrightarrow> first_match (Seq a b) s c = Some y"
  by (auto simp: first_match_def split: list.splits)

lemma first_match_Lit_char: "first_match (Lit [ch]) (ch # s) c = Some (c, s)"
  by (simp add: first_match_def)

lemma first_match_Eol: "first_match Eol [] c = Some (c, [])"
  by (simp add: first_match_def)

lemma takeWhile_run:
  "list_all p ds \<Longrightarrow> rest = [] \<or> \<not> p (hd rest) \<Longrightarrow> takeWhile p (ds @ rest) = ds"
  by (induction ds) (auto simp: takeWhile_eq_Nil_iff neq_Nil_conv)

lemma first_match_Plus:
  assumes "list_all p ds" "ds \<noteq> []" "rest = [] \<or> \<not> p (hd rest)"
  shows "first_match (Plus p) (ds @ rest) c = Some (c, rest)"
proof -
  obtain n where n: "length ds = Suc n" using assms(2) by (cases ds) auto
  have "rev [1 ..< Suc (length ds)] = length ds # rev [1 ..< length ds]"
    by (simp add: n)
  then show ?thesis
    by (simp add: first_match_def takeWhile_run [OF assms(1,3)])
qed

lemma first_match_Grp:
  "first_match a s c = Some (c1, s1) \<Longrightarrow>
     first_match (Grp g a) s c = Some ((g, take (length s - length s1) s) # c1, s1)"
  by (auto simp: first_match_def split: list.splits)

lemma first_match_Grp_Plus:
  assumes "list_all p ds" "ds \<noteq> []" "rest = [] \<or> \<not> p (hd rest)"
  shows "first_match (Grp g (Plus p)) (ds @ rest) c = Some ((g, ds) # c, rest)"
  using first_match_Grp [OF first_match_Plus [OF assms], of g c] by simp

lemma digit_chr_09: "d < 10 \<Longrightarrow> cls_09 (digit_chr d)"
proof -
  assume "d < 10"
  then have "d \<in> {0,1,2,3,4,5,6,7,8,9}" by auto
  moreover have "cls_09 (digit_chr 0)" "cls_09 (digit_chr 1)" "cls_09 (digit_chr 2)"
    "cls_09 (digit_chr 3)" "cls_09 (digit_chr 4)" "cls_09 (digit_chr 5)"
    "cls_09 (digit_chr 6)" "cls_09 (digit_chr 7)" "cls_09 (digit_chr 8)"
    "cls_09 (digit_chr 9)"
    by code_simp+
  ultimately show ?thesis by auto
qed

lemma digit_val_chr: "d < 10 \<Longrightarrow> digit_val (digit_chr d) = d"
  by (simp add: digit_val_def digit_chr_def)

lemma str_nat_digits: "list_all cls_09 (str_nat n)"
proof (induction n rule: str_nat.induct)
  case (1 n)
  then show ?case by (subst str_nat.simps) (simp add: digit_chr_09)
qed

lemma str_nat_nonempty: "str_nat n \<noteq> []"
  by (subst str_nat.simps) simp

lemma py_int_str_nat: "py_int (str_nat n) = int n"
proof (induction n rule: str_nat.induct)
  case (1 n)
  show ?case
  proof (cases "n < 10")
    case True
    then show ?thesis by (subst str_nat.simps) (simp add: py_int_def digit_val_chr)
  next
    case False
    with 1 have "foldl (\<lambda>a ch. 10 * a + digit_val ch) 0 (str_nat (n div 10)) = n div 10"
      by (simp add: py_int_def)
    with False show ?thesis
      by (subst str_nat.simps) (simp add: py_int_def digit_val_chr)
  qed
qed

lemma not_09_dot: "\<not> cls_09 CHR ''.''"
  by (simp add: cls_09_def)

lemma octets_match:
  assumes "list_all cls_09 d1" "d1 \<noteq> []" "list_all cls_09 d2" "d2 \<noteq> []"
    "list_all cls_09 d3" "d3 \<noteq> []" "list_all cls_09 d4" "d4 \<noteq> []"
  shows "re_search octets_rx (d1 @ CHR ''.'' # d2 @ CHR ''.'' # d3 @ CHR ''.'' # d4)
         = Some [(Pos 4, d4), (Pos 3, d3), (Pos 2, d2), (Pos 1, d1)]"
proof -
  let ?r4 = "Seq (Grp (Pos 4) (Plus cls_09)) Eol"
  let ?r3 = "Seq (Grp (Pos 3) (Plus cls_09)) (Seq (Lit ''.'') ?r4)"
  let ?r2 = "Seq (Grp (Pos 2) (Plus cls_09)) (Seq (Lit ''.'') ?r3)"
  have g4: "first_match ?r4 (d4 @ []) c = Some ((Pos 4, d4) # c, [])" for c
    by (rule first_match_Seq [OF first_match_Grp_Plus first_match_Eol]) (simp_all add: assms)
  have l3: "first_match (Seq (Lit ''.'') ?r4) (CHR ''.'' # d4) c = Some ((Pos 4, d4) # c, [])" for c
    using first_match_Seq [OF first_match_Lit_char g4] by simp
  have g3: "first_match ?r3 (d3 @ CHR ''.'' # d4) c = Some ((Pos 4, d4) # (Pos 3, d3) # c, [])" for c
    by (rule first_match_Seq [OF first_match_Grp_Plus l3]) (simp_all add: assms not_09_dot)
  have l2: "first_match (Seq (Lit ''.'') ?r3) (CHR ''.'' # d3 @ CHR ''.'' # d4) c
      = Some ((Pos 4, d4) # (Pos 3, d3) # c, [])" for c
    by (rule first_match_Seq [OF first_match_Lit_char g3])
  have g2: "first_match ?r2 (d2 @ CHR ''.'' # d3 @ CHR ''.'' # d4) c
      = Some ((Pos 4, d4) # (Pos 3, d3) # (Pos 2, d2) # c, [])" for c
    by (rule first_match_Seq [OF first_match_Grp_Plus l2]) (simp_all add: assms not_09_dot)
  have l1: "first_match (Seq (Lit ''.'') ?r2) (CHR ''.'' # d2 @ CHR ''.'' # d3 @ CHR ''.'' # d4) c
      = Some ((Pos 4, d4) # (Pos 3, d3) # (Pos 2, d2) # c, [])" for c
    by (rule first_match_Seq [OF first_match_Lit_char g2])
  have g1: "first_match octets_rx (d1 @ CHR ''.'' # d2 @ CHR ''.'' # d3 @ CHR ''.'' # d4) c
      = Some ((Pos 4, d4) # (Pos 3, d3) # (Pos 2, d2) # (Pos 1, d1) # c, [])" for c
    unfolding octets_rx_def
    by (rule first_match_Seq [OF first_match_Grp_Plus l1]) (simp_all add: assms not_09_dot)
  show ?thesis by (simp add: re_search_def g1)
qed

lemma octet_field: "drop_bit s (and n (push_bit s 255)) = take_bit 8 (drop_bit s (n::int))"
proof -
  have "(255::int) = mask 8" by (simp add: mask_eq_exp_minus_1)
  then show ?thesis
    by (simp only: drop_bit_and drop_bit_push_bit take_bit_eq_mask diff_self_eq_0 drop_bit_0 push_bit_0_id id_apply)
qed

lemma split8: "(k::int) = push_bit 8 (drop_bit 8 k) + take_bit 8 k"
  by (simp add: bits_ident)

lemma octets_sum:
  assumes "0 \<le> (n::int)" "n < 2 ^ 32"
  shows "push_bit 24 (take_bit 8 (drop_bit 24 n)) + push_bit 16 (take_bit 8 (drop_bit 16 n))
         + push_bit 8 (take_bit 8 (drop_bit 8 n)) + take_bit 8 n = n"
proof -
  have t: "take_bit 32 n = n" using assms by (simp add: take_bit_int_eq_self)
  have "drop_bit 24 n = drop_bit 24 (take_bit 32 n)" by (simp only: t)
  also have "\<dots> = take_bit 8 (drop_bit 24 n)" by (simp add: drop_bit_take_bit)
  finally have d24: "drop_bit 24 n = take_bit 8 (drop_bit 24 n)" .
  have d16: "drop_bit 16 n = push_bit 8 (drop_bit 24 n) + take_bit 8 (drop_bit 16 n)"
    using split8 [of "drop_bit 16 n"] by (simp add: drop_bit_drop_bit)
  have d8: "drop_bit 8 n = push_bit 8 (drop_bit 16 n) + take_bit 8 (drop_bit 8 n)"
    using split8 [of "drop_bit 8 n"] by (simp add: drop_bit_drop_bit)
  have d0: "n = push_bit 8 (drop_bit 8 n) + take_bit 8 n"
    by (rule split8)
  define a where "a = take_bit 8 (drop_bit 24 n)"
  define b where "b = take_bit 8 (drop_bit 16 n)"
  define c where "c = take_bit 8 (drop_bit 8 n)"
  define d where "d = take_bit 8 n"
  have "n = push_bit 8 (push_bit 8 (push_bit 8 a + b) + c) + d"
    unfolding a_def b_def c_def d_def using d24 d16 d8 d0 by simp
  also have "\<dots> = push_bit 24 a + push_bit 16 b + push_bit 8 c + d"
    by (simp add: push_bit_add push_bit_push_bit)
  finally show ?thesis unfolding a_def b_def c_def d_def by simp
qed

lemma py_str_octet: "py_str (take_bit 8 k) = str_nat (nat (take_bit 8 (k::int)))"
  by (simp add: py_str_def)

lemma py_int_py_str_octet: "py_int (py_str (take_bit 8 (k::int))) = take_bit 8 k"
  by (simp add: py_str_octet py_int_str_nat)

lemma upt4: "[0 ..< 4] = [0, 1, 2, 3]"
  by code_simp

lemma zip4: "zip [0 ..< 4] [1 ..< 5] = [(0, 1), (1, 2), (2, 3), (3, 4)]"
  by code_simp

lemma IPv4Address_str_unfold:
  "IPv4Address_str \<lparr>ip = n\<rparr> =
     py_str (take_bit 8 (drop_bit 24 n)) @ CHR ''.'' #
     py_str (take_bit 8 (drop_bit 16 n)) @ CHR ''.'' #
     py_str (take_bit 8 (drop_bit 8 n)) @ CHR ''.'' #
     py_str (take_bit 8 n)"
proof -
  have "IPv4Address_str \<lparr>ip = n\<rparr> =
      join ''.'' (map (\<lambda>octet. py_str (take_bit 8 (drop_bit ((3 - octet) * 8) n))) [0, 1, 2, 3])"
    by (simp only: IPv4Address_str_def Let_def octet_field upt4 IPv4Address.select_convs)
  then show ?thesis by simp
qed

lemma octet_loop_four:
  "octet_loop [(Pos 4, t4), (Pos 3, t3), (Pos 2, t2), (Pos 1, t1)]
     [(0, 1), (1, 2), (2, 3), (3, 4)] 0
   = Inr (push_bit 24 (py_int t1) + push_bit 16 (py_int t2) + push_bit 8 (py_int t3) + py_int t4)"
  by (simp add: group_def)

subsection \<open>The two substitutions\<close>

lemma dropWhile_stop: "rest = [] \<or> \<not> p (hd rest) \<Longrightarrow> dropWhile p rest = rest"
  by (cases rest) auto

lemma dropWhile_run:
  "list_all p ds \<Longrightarrow> rest = [] \<or> \<not> p (hd rest) \<Longrightarrow> dropWhile p (ds @ rest) = rest"
  by (induction ds) (simp_all add: dropWhile_stop)

lemma first_match_Lit_prefix: "first_match (Lit l) (l @ s) c = Some (c, s)"
  by (simp add: first_match_def)

lemma str_replace_Nil: "old \<noteq> [] \<Longrightarrow> str_replace old new [] = []"
  by (simp add: str_replace.simps)

lemma str_replace_hit: "old \<noteq> [] \<Longrightarrow> str_replace old new (old @ ys) = new @ str_replace old new ys"
  by (subst str_replace.simps) simp

lemma str_replace_miss:
  "old \<noteq> [] \<Longrightarrow> \<not> prefix old (x # xs) \<Longrightarrow> str_replace old new (x # xs) = x # str_replace old new xs"
  by (subst str_replace.simps) simp

lemma str_replace_absent:
  "old \<noteq> [] \<Longrightarrow> \<not> sublist old s \<Longrightarrow> str_replace old new s = s"
proof (induction s)
  case Nil
  then show ?case by (simp add: str_replace_Nil)
next
  case (Cons x xs)
  then have "\<not> prefix old (x # xs)" "\<not> sublist old xs"
    by (auto simp: sublist_Cons_right)
  with Cons show ?case by (simp add: str_replace_miss)
qed

lemma prefix_overlap:
  assumes "prefix old (zs @ old @ ys)" "zs \<noteq> []"
  shows "prefix old (zs @ butlast old)"
proof (rule prefix_length_prefix [OF assms(1)])
  show "prefix (zs @ butlast old) (zs @ old @ ys)"
  proof (cases "old = []")
    case True
    then show ?thesis by simp
  next
    case False
    then have "butlast old @ [last old] = old"
      by (rule append_butlast_last_id)
    then have "(butlast old @ [last old]) @ ys = old @ ys"
      by (rule arg_cong)
    then have "(zs @ butlast old) @ (last old # ys) = zs @ old @ ys"
      by simp
    then show ?thesis
      unfolding prefix_def by (intro exI [of _ "last old # ys"]) (rule sym)
  qed
  show "length old \<le> length (zs @ butlast old)"
    using assms(2) by (cases zs) auto
qed

lemma str_replace_first:
  "old \<noteq> [] \<Longrightarrow> \<not> sublist old (xs @ butlast old) \<Longrightarrow>
     str_replace old new (xs @ old @ ys) = xs @ new @ str_replace old new ys"
proof (induction xs)
  case Nil
  then show ?case by (simp add: str_replace_hit)
next
  case (Cons x xs)
  have "\<not> prefix old ((x # xs) @ old @ ys)"
  proof
    assume "prefix old ((x # xs) @ old @ ys)"
    then have "prefix old ((x # xs) @ butlast old)" by (rule prefix_overlap) simp
    then have "sublist old ((x # xs) @ butlast old)" by (rule prefix_imp_sublist)
    with Cons.prems show False by simp
  qed
  moreover have "\<not> sublist old (xs @ butlast old)"
    using Cons.prems(2) by (auto simp: sublist_Cons_right)
  ultimately show ?case using Cons by (simp add: str_replace_miss)
qed


lemma host_match:
  assumes "cls_09dot d"
  shows "first_match host_rx (''host '' @ d # t) [] =
     Some ([(Pos 1, takeWhile cls_09dot (d # t))], dropWhile cls_09dot (d # t))"
proof -
  let ?ds = "takeWhile cls_09dot (d # t)" and ?r = "dropWhile cls_09dot (d # t)"
  have ds1: "list_all cls_09dot ?ds"
    by (auto simp: list_all_iff dest: set_takeWhileD)
  have ds2: "?ds \<noteq> []"
    using assms by simp
  have ds3: "?r = [] \<or> \<not> cls_09dot (hd ?r)"
    using hd_dropWhile [of cls_09dot "d # t"] by blast
  have "first_match (Grp (Pos 1) (Plus cls_09dot)) (?ds @ ?r) [] = Some ([(Pos 1, ?ds)], ?r)"
    by (rule first_match_Grp_Plus [OF ds1 ds2 ds3])
  then have "first_match (Grp (Pos 1) (Plus cls_09dot)) (d # t) [] = Some ([(Pos 1, ?ds)], ?r)"
    by (simp only: takeWhile_dropWhile_id)
  from first_match_Seq [OF first_match_Lit_prefix [of "''host ''" "d # t" "[]"] this]
  show ?thesis by (simp only: host_rx_def)
qed

lemma host_no_match:
  assumes "\<forall>d. cls_09dot d \<longrightarrow> \<not> prefix (''host '' @ [d]) s"
  shows "first_match host_rx s [] = None"
proof (cases "prefix ''host '' s")
  case False
  then show ?thesis by (simp add: first_match_def host_rx_def)
next
  case True
  then obtain t where s: "s = ''host '' @ t" by (auto simp: prefix_def)
  have "t = [] \<or> \<not> cls_09dot (hd t)"
  proof (cases t)
    case Nil
    then show ?thesis by simp
  next
    case (Cons d u)
    then have "prefix (''host '' @ [d]) s" by (simp add: s)
    with assms have "\<not> cls_09dot d" by blast
    with Cons show ?thesis by simp
  qed
  then have "takeWhile cls_09dot t = []"
    by (auto simp: takeWhile_eq_Nil_iff)
  then show ?thesis by (simp add: first_match_def host_rx_def s)
qed

lemma sub_host_Nil: "sub_host [] = []"
  by (simp add: sub_host_def re_sub.simps)

lemma sub_host_miss:
  "\<forall>d. cls_09dot d \<longrightarrow> \<not> prefix (''host '' @ [d]) (x # xs) \<Longrightarrow>
     sub_host (x # xs) = x # sub_host xs"
  unfolding sub_host_def by (subst re_sub.simps) (simp add: host_no_match)

lemma sub_host_hit:
  assumes "list_all cls_09dot ds" "ds \<noteq> []" "ys = [] \<or> \<not> cls_09dot (hd ys)"
  shows "sub_host (''host '' @ ds @ ys) = ds @ '' 0.0.0.0'' @ sub_host ys"
proof -
  from assms(1,2) obtain d t where ds: "ds = d # t" and d: "cls_09dot d"
    by (cases ds) auto
  have "first_match host_rx (''host '' @ d # (t @ ys)) [] =
      Some ([(Pos 1, takeWhile cls_09dot (d # (t @ ys)))], dropWhile cls_09dot (d # (t @ ys)))"
    by (rule host_match [OF d])
  moreover have "d # (t @ ys) = ds @ ys" by (simp add: ds)
  ultimately have "first_match host_rx (''host '' @ ds @ ys) [] = Some ([(Pos 1, ds)], ys)"
    using takeWhile_run [OF assms(1,3)] dropWhile_run [OF assms(1,3)] by simp
  then show ?thesis
    unfolding sub_host_def by (subst re_sub.simps) (simp add: host_repl_def group_def)
qed

lemma replace_any_absent: "\<not> sublist ''any'' s \<Longrightarrow> replace_any s = s"
  unfolding replace_any_def by (rule str_replace_absent) simp_all

lemma replace_any_first:
  assumes "\<not> sublist ''any'' (xs @ ''an'')"
  shows "replace_any (xs @ ''any'' @ ys) = xs @ ''0.0.0.0 255.255.255.255'' @ replace_any ys"
proof -
  have "butlast ''any'' = ''an''" by simp
  with assms have "\<not> sublist ''any'' (xs @ butlast ''any'')" by simp
  then show ?thesis
    unfolding replace_any_def by (intro str_replace_first) simp_all
qed

lemma sub_host_absent:
  "\<forall>d. cls_09dot d \<longrightarrow> \<not> sublist (''host '' @ [d]) s \<Longrightarrow> sub_host s = s"
proof (induction s)
  case Nil
  then show ?case by (simp add: sub_host_Nil)
next
  case (Cons x xs)
  have 1: "\<forall>d. cls_09dot d \<longrightarrow> \<not> prefix (''host '' @ [d]) (x # xs)"
    using Cons.prems by (blast dest: prefix_imp_sublist)
  have 2: "\<forall>d. cls_09dot d \<longrightarrow> \<not> sublist (''host '' @ [d]) xs"
    using Cons.prems by (simp add: sublist_Cons_right)
  from Cons.IH [OF 2] sub_host_miss [OF 1] show ?case by simp
qed

lemma sub_host_first:
  assumes "\<forall>d. cls_09dot d \<longrightarrow> \<not> sublist (''host '' @ [d]) (xs @ ''host '')"
    and "list_all cls_09dot ds" "ds \<noteq> []" "ys = [] \<or> \<not> cls_09dot (hd ys)"
  shows "sub_host (xs @ ''host '' @ ds @ ys) = xs @ ds @ '' 0.0.0.0'' @ sub_host ys"
  using assms(1)
proof (induction xs)
  case Nil
  show ?case using sub_host_hit [OF assms(2-4)] by simp
next
  case (Cons x xs)
  have 1: "\<forall>d. cls_09dot d \<longrightarrow> \<not> prefix (''host '' @ [d]) (x # xs @ ''host '' @ ds @ ys)"
  proof (intro allI impI notI)
    fix d assume d: "cls_09dot d" and p: "prefix (''host '' @ [d]) (x # xs @ ''host '' @ ds @ ys)"
    have q: "prefix ((x # xs) @ ''host '') (x # xs @ ''host '' @ ds @ ys)"
      by simp
    have len: "length (''host '' @ [d]) \<le> length ((x # xs) @ ''host '')"
      by simp
    have "prefix (''host '' @ [d]) ((x # xs) @ ''host '')"
      by (rule prefix_length_prefix [OF p q len])
    then have "sublist (''host '' @ [d]) ((x # xs) @ ''host '')" by (rule prefix_imp_sublist)
    with Cons.prems d show False by blast
  qed
  have 2: "\<forall>d. cls_09dot d \<longrightarrow> \<not> sublist (''host '' @ [d]) (xs @ ''host '')"
    using Cons.prems by (simp add: sublist_Cons_right)
  from Cons.IH [OF 2] sub_host_miss [OF 1] show ?case by simp
qed

lemma parse_rewritten:
  "parse_ace_config l = Inr ace \<Longrightarrow>
     \<exists>m rest ips. re_search ace_rx l = Some m \<and> group m (Named ''line'') = Some rest
        \<and> re_search ips_rx (sub_host (replace_any rest)) = Some ips"
  unfolding parse_ace_config_def
  by (auto split: option.splits sum.splits)

text \<open>
  What the two substitutions do: the entry is parsed from the rewritten rest of the
  line; a text without the three characters \<^verbatim>\<open>any\<close> is left as it is, and a text
  is rewritten at their first occurrence, wherever it stands, and then behind it; a
  text without \<^verbatim>\<open>host \<close> before a digit or a dot is left as it is, and at the first
  such place the five characters go, the longest run of digits and dots stays and
  \<^verbatim>\<open> 0.0.0.0\<close> follows it, and the text behind is rewritten in the same way.
\<close>

lemma step_2_substitutions:
  "(parse_ace_config l = Inr ace \<longrightarrow>
      (\<exists>m rest ips. re_search ace_rx l = Some m \<and> group m (Named ''line'') = Some rest
         \<and> re_search ips_rx (sub_host (replace_any rest)) = Some ips))
   \<and> (\<not> sublist ''any'' s \<longrightarrow> replace_any s = s)
   \<and> (\<not> sublist ''any'' (xs @ ''an'') \<longrightarrow>
        replace_any (xs @ ''any'' @ ys) = xs @ ''0.0.0.0 255.255.255.255'' @ replace_any ys)
   \<and> ((\<forall>d. cls_09dot d \<longrightarrow> \<not> sublist (''host '' @ [d]) s) \<longrightarrow> sub_host s = s)
   \<and> ((\<forall>d. cls_09dot d \<longrightarrow> \<not> sublist (''host '' @ [d]) (xs @ ''host ''))
        \<and> list_all cls_09dot ds \<and> ds \<noteq> [] \<and> (ys = [] \<or> \<not> cls_09dot (hd ys)) \<longrightarrow>
        sub_host (xs @ ''host '' @ ds @ ys) = xs @ ds @ '' 0.0.0.0'' @ sub_host ys)"
  using parse_rewritten replace_any_absent replace_any_first sub_host_absent sub_host_first
  by blast

subsection \<open>The loop of the block parser\<close>

text \<open>
  The loop never ends with ParserExceptionInvalidEntry, and where no line raises
  anything else it returns the entries of the lines that parse, in their order, and
  logs one warning for each of the other lines.
\<close>

lemma parse_lines_never_invalid_entry:
  "fst (parse_lines ls acc lg) \<noteq> Inl ParserExceptionInvalidEntry"
  by (induction ls arbitrary: acc lg) (auto split: sum.splits)

lemma parse_lines_skips:
  assumes "\<forall>l \<in> set ls. \<forall>e. parse_ace_config l = Inl e \<longrightarrow> e = ParserExceptionInvalidEntry"
  shows "parse_lines ls acc lg =
     (Inr (acc @ List.map_filter
                   (\<lambda>l. case parse_ace_config l of Inr a \<Rightarrow> Some a | Inl e \<Rightarrow> None) ls),
      lg @ map skipping
             (filter (\<lambda>l. parse_ace_config l = Inl ParserExceptionInvalidEntry) ls))"
  using assms
proof (induction ls arbitrary: acc lg)
  case Nil
  then show ?case by (simp add: List.map_filter_simps)
next
  case (Cons l ls)
  then show ?case
    by (cases "parse_ace_config l") (auto simp: List.map_filter_simps)
qed

lemma parse_acl_config_never_invalid_entry:
  "fst (parse_acl_config acl) \<noteq> Inl ParserExceptionInvalidEntry"
  using parse_lines_never_invalid_entry [of "split_nl acl" "[]" "[]"]
  by (auto simp: parse_acl_config_def split: prod.splits sum.splits)

section \<open>The block parser\<close>

text \<open>
  C1 (the block parser never fails because of a malformed line). The loop catches
  ParserExceptionInvalidEntry only, while \<^verbatim>\<open>parse_ace_config\<close> lets the
  IPv4AddressException of a malformed address through, although its docstring promises
  ParserExceptionInvalidEntry for every line that is no valid entry. On the two lines
  below, the first a valid entry and the second one with the address \<^verbatim>\<open>1.2.3\<close>, the
  whole call ends with that exception: no access list is returned, and nothing is
  logged.
\<close>

theorem parse_acl_config_address_error:
  "parse_acl_config (''   10 permit ip any any'' @ [CHR 0x0A] @
                     ''   20 permit ip 1.2.3 0.0.0.0 any'')
     = (Inl IPv4AddressException, [])"
  by code_simp

text \<open>
  C6 (an empty block gives an empty access list and no diagnostics). The empty text
  splits into one empty line, which is no entry: the access list is empty and
  nothing fails, but one warning is logged.
\<close>

theorem parse_acl_config_empty:
  "parse_acl_config [] = (Inr \<lparr>aces = []\<rparr>, [WARNING ''Skipping invalid line \"\"''])"
  by code_simp

text \<open>C6, as the claim has it: the list of diagnostics for the empty text is not empty.\<close>

theorem parse_acl_config_empty_logs:
  "snd (parse_acl_config []) \<noteq> []"
  by code_simp

section \<open>The line parser\<close>

text \<open>
  C5 (the first scenario). The line \<^verbatim>\<open>   10 permit tcp any host 10.0.0.5 eq 80\<close>
  parses to the entry with index 10, action permit, protocol tcp, the source
  \<^verbatim>\<open>0.0.0.0\<close> with the mask \<^verbatim>\<open>255.255.255.255\<close>, no source port and the
  destination \<^verbatim>\<open>10.0.0.5\<close> with the mask \<^verbatim>\<open>0.0.0.0\<close>. Its destination port is not
  the integer 80 of the declared type \<^verbatim>\<open>int | None\<close>: the field holds the text
  \<^verbatim>\<open>80\<close> of the line, which the parser assigns as it was captured, while the index
  of the same line went through the constructor and is an integer. The last three
  equations give the addresses in dotted-quad form.
\<close>

theorem parse_ace_config_scenario_1:
  "parse_ace_config ''   10 permit tcp any host 10.0.0.5 eq 80'' =
     Inr \<lparr>index_number = 10, action = PERMIT, protocol = TCP,
          source_ipv4 = Some \<lparr>address = \<lparr>ip = 0\<rparr>, wildcard_mask = \<lparr>ip = 4294967295\<rparr>\<rparr>,
          source_port = None,
          destination_ipv4 = Some \<lparr>address = \<lparr>ip = 167772165\<rparr>, wildcard_mask = \<lparr>ip = 0\<rparr>\<rparr>,
          destination_port = Some ''80''\<rparr>
   \<and> IPv4Address_str \<lparr>ip = 0\<rparr> = ''0.0.0.0''
   \<and> IPv4Address_str \<lparr>ip = 4294967295\<rparr> = ''255.255.255.255''
   \<and> IPv4Address_str \<lparr>ip = 167772165\<rparr> = ''10.0.0.5''"
  by code_simp

text \<open>
  C2 (the matcher on the entry of the first scenario). \<^verbatim>\<open>is_hit\<close> is declared to
  return a truth value and only raises: for the entry of the line and the two packets
  of the claim, to \<^verbatim>\<open>10.0.0.5\<close> and to \<^verbatim>\<open>10.0.0.6\<close> on port 80, whatever their source,
  the call ends with a TypeError and returns neither true nor false.
\<close>

theorem is_hit_scenario_1_raises:
  "parse_ace_config ''   10 permit tcp any host 10.0.0.5 eq 80'' =
     Inr \<lparr>index_number = 10, action = PERMIT, protocol = TCP,
          source_ipv4 = Some \<lparr>address = \<lparr>ip = 0\<rparr>, wildcard_mask = \<lparr>ip = 4294967295\<rparr>\<rparr>,
          source_port = None,
          destination_ipv4 = Some \<lparr>address = \<lparr>ip = 167772165\<rparr>, wildcard_mask = \<lparr>ip = 0\<rparr>\<rparr>,
          destination_port = Some ''80''\<rparr>
   \<and> is_hit
         \<lparr>index_number = 10, action = PERMIT, protocol = TCP,
          source_ipv4 = Some \<lparr>address = \<lparr>ip = 0\<rparr>, wildcard_mask = \<lparr>ip = 4294967295\<rparr>\<rparr>,
          source_port = None,
          destination_ipv4 = Some \<lparr>address = \<lparr>ip = 167772165\<rparr>, wildcard_mask = \<lparr>ip = 0\<rparr>\<rparr>,
          destination_port = Some ''80''\<rparr>
         \<lparr>pkt_protocol = TCP, pkt_source_ipv4 = src, pkt_source_port = sport,
          pkt_destination_ipv4 = \<lparr>ip = 167772165\<rparr>, pkt_destination_port = Some 80\<rparr>
       = Inl TypeError
   \<and> is_hit
         \<lparr>index_number = 10, action = PERMIT, protocol = TCP,
          source_ipv4 = Some \<lparr>address = \<lparr>ip = 0\<rparr>, wildcard_mask = \<lparr>ip = 4294967295\<rparr>\<rparr>,
          source_port = None,
          destination_ipv4 = Some \<lparr>address = \<lparr>ip = 167772165\<rparr>, wildcard_mask = \<lparr>ip = 0\<rparr>\<rparr>,
          destination_port = Some ''80''\<rparr>
         \<lparr>pkt_protocol = TCP, pkt_source_ipv4 = src, pkt_source_port = sport,
          pkt_destination_ipv4 = \<lparr>ip = 167772166\<rparr>, pkt_destination_port = Some 80\<rparr>
       = Inl TypeError"
proof -
  have "parse_ace_config ''   10 permit tcp any host 10.0.0.5 eq 80'' =
     Inr \<lparr>index_number = 10, action = PERMIT, protocol = TCP,
          source_ipv4 = Some \<lparr>address = \<lparr>ip = 0\<rparr>, wildcard_mask = \<lparr>ip = 4294967295\<rparr>\<rparr>,
          source_port = None,
          destination_ipv4 = Some \<lparr>address = \<lparr>ip = 167772165\<rparr>, wildcard_mask = \<lparr>ip = 0\<rparr>\<rparr>,
          destination_port = Some ''80''\<rparr>"
    by code_simp
  then show ?thesis
    by (simp add: is_hit_def)
qed

text \<open>
  C7 (step 2 replaces the bare words \<^verbatim>\<open>any\<close> and \<^verbatim>\<open>host\<close>, and no occurrence inside
  a larger word). The comment in the code says that the words are changed, but
  \<^verbatim>\<open>str.replace\<close> and the pattern \<^verbatim>\<open>host ([0-9.]+)\<close> look for the characters
  wherever they stand. The rest \<^verbatim>\<open>1any any\<close> is rewritten inside the word
  \<^verbatim>\<open>1any\<close>, and the line is accepted as an entry with the source \<^verbatim>\<open>10.0.0.0\<close>
  and the mask \<^verbatim>\<open>255.255.255.255\<close>; the rest \<^verbatim>\<open>any 1host 2.3.4.5\<close> is rewritten
  inside the word \<^verbatim>\<open>1host\<close>, and the line is accepted as an entry with the
  destination \<^verbatim>\<open>12.3.4.5\<close> and the mask \<^verbatim>\<open>0.0.0.0\<close>.
\<close>

theorem step_2_rewrites_inside_words:
  "sub_host (replace_any ''1any any'') = ''10.0.0.0 255.255.255.255 0.0.0.0 255.255.255.255''
   \<and> parse_ace_config ''   10 permit ip 1any any'' =
     Inr \<lparr>index_number = 10, action = PERMIT, protocol = IP,
          source_ipv4 = Some \<lparr>address = \<lparr>ip = 167772160\<rparr>, wildcard_mask = \<lparr>ip = 4294967295\<rparr>\<rparr>,
          source_port = None,
          destination_ipv4 = Some \<lparr>address = \<lparr>ip = 0\<rparr>, wildcard_mask = \<lparr>ip = 4294967295\<rparr>\<rparr>,
          destination_port = None\<rparr>
   \<and> IPv4Address_str \<lparr>ip = 167772160\<rparr> = ''10.0.0.0''
   \<and> sub_host (replace_any ''any 1host 2.3.4.5'') = ''0.0.0.0 255.255.255.255 12.3.4.5 0.0.0.0''
   \<and> parse_ace_config ''   10 permit ip any 1host 2.3.4.5'' =
     Inr \<lparr>index_number = 10, action = PERMIT, protocol = IP,
          source_ipv4 = Some \<lparr>address = \<lparr>ip = 0\<rparr>, wildcard_mask = \<lparr>ip = 4294967295\<rparr>\<rparr>,
          source_port = None,
          destination_ipv4 = Some \<lparr>address = \<lparr>ip = 201524229\<rparr>, wildcard_mask = \<lparr>ip = 0\<rparr>\<rparr>,
          destination_port = None\<rparr>
   \<and> IPv4Address_str \<lparr>ip = 201524229\<rparr> = ''12.3.4.5''"
  by code_simp

text \<open>
  C9 (every parsed entry has an index of at least 1). The pattern takes any run of
  digits as the index and nothing compares it with a bound, so what holds of every
  entry that the line parser returns is that its index is not negative.
\<close>

theorem parse_ace_config_index_nonneg:
  "parse_ace_config l = Inr ace \<Longrightarrow> 0 \<le> index_number ace"
  unfolding parse_ace_config_def
  by (auto split: option.splits sum.splits dest: AccessListEntry_init_index)

text \<open>C9, as the claim has it: a line with the index 0 parses, to an entry with index 0.\<close>

theorem parse_ace_config_index_zero:
  "parse_ace_config ''   0 permit ip any any'' =
     Inr \<lparr>index_number = 0, action = PERMIT, protocol = IP,
          source_ipv4 = Some \<lparr>address = \<lparr>ip = 0\<rparr>, wildcard_mask = \<lparr>ip = 4294967295\<rparr>\<rparr>,
          source_port = None,
          destination_ipv4 = Some \<lparr>address = \<lparr>ip = 0\<rparr>, wildcard_mask = \<lparr>ip = 4294967295\<rparr>\<rparr>,
          destination_port = None\<rparr>"
  by code_simp

text \<open>C9: the theorem at the line of the first scenario, whose index is 10.\<close>

theorem parse_ace_config_index_nonneg_witness:
  "parse_ace_config ''   10 permit tcp any host 10.0.0.5 eq 80'' =
     Inr \<lparr>index_number = 10, action = PERMIT, protocol = TCP,
          source_ipv4 = Some \<lparr>address = \<lparr>ip = 0\<rparr>, wildcard_mask = \<lparr>ip = 4294967295\<rparr>\<rparr>,
          source_port = None,
          destination_ipv4 = Some \<lparr>address = \<lparr>ip = 167772165\<rparr>, wildcard_mask = \<lparr>ip = 0\<rparr>\<rparr>,
          destination_port = Some ''80''\<rparr>
   \<and> 0 \<le> index_number
         \<lparr>index_number = 10, action = PERMIT, protocol = TCP,
          source_ipv4 = Some \<lparr>address = \<lparr>ip = 0\<rparr>, wildcard_mask = \<lparr>ip = 4294967295\<rparr>\<rparr>,
          source_port = None,
          destination_ipv4 = Some \<lparr>address = \<lparr>ip = 167772165\<rparr>, wildcard_mask = \<lparr>ip = 0\<rparr>\<rparr>,
          destination_port = Some ''80''\<rparr>"
proof -
  have h: "parse_ace_config ''   10 permit tcp any host 10.0.0.5 eq 80'' =
     Inr \<lparr>index_number = 10, action = PERMIT, protocol = TCP,
          source_ipv4 = Some \<lparr>address = \<lparr>ip = 0\<rparr>, wildcard_mask = \<lparr>ip = 4294967295\<rparr>\<rparr>,
          source_port = None,
          destination_ipv4 = Some \<lparr>address = \<lparr>ip = 167772165\<rparr>, wildcard_mask = \<lparr>ip = 0\<rparr>\<rparr>,
          destination_port = Some ''80''\<rparr>"
    by code_simp
  from parse_ace_config_index_nonneg [OF h] h show ?thesis
    by blast
qed



section \<open>IPv4Address\<close>

text \<open>
  C3 (a string is accepted only if each of its four octets is at most 255). The
  constructor checks the sum of the shifted octets against 2^32 and no octet on its
  own: the string \<^verbatim>\<open>0.0.0.256\<close>, which is no IPv4 address, is accepted, as the
  address of value 256 (\<^verbatim>\<open>0.0.1.0\<close>).
\<close>

theorem IPv4Address_init_octet_256:
  "IPv4Address_init (StrArg ''0.0.0.256'') = Inr \<lparr>ip = 256\<rparr>
   \<and> IPv4Address_str \<lparr>ip = 256\<rparr> = ''0.0.1.0''"
  by code_simp

text \<open>
  C4 (from an integer to the dotted quad and back). For every \<open>n\<close> from 0 to
  2^32 - 1 the constructor accepts the integer, and the constructor applied to the
  dotted-quad text of that address returns the address of value \<open>n\<close> again.
\<close>

theorem dotted_quad_round_trip:
  assumes "0 \<le> n" and "n \<le> 2 ^ 32 - 1"
  shows "IPv4Address_init (IntArg n) = Inr \<lparr>ip = n\<rparr>
         \<and> IPv4Address_init (StrArg (IPv4Address_str \<lparr>ip = n\<rparr>)) = Inr \<lparr>ip = n\<rparr>"
proof -
  let ?o = "\<lambda>s. take_bit 8 (drop_bit s n)"
  have dig: "list_all cls_09 (py_str (take_bit 8 k))" "py_str (take_bit 8 k) \<noteq> []"
    for k :: int
    by (simp_all add: py_str_octet str_nat_digits str_nat_nonempty)
  have m: "re_search octets_rx (IPv4Address_str \<lparr>ip = n\<rparr>) =
      Some [(Pos 4, py_str (take_bit 8 n)), (Pos 3, py_str (?o 8)),
            (Pos 2, py_str (?o 16)), (Pos 1, py_str (?o 24))]"
    unfolding IPv4Address_str_unfold by (rule octets_match) (rule dig)+
  have "from_string (IPv4Address_str \<lparr>ip = n\<rparr>) =
      Inr (push_bit 24 (?o 24) + push_bit 16 (?o 16) + push_bit 8 (?o 8) + take_bit 8 n)"
    unfolding from_string_def m zip4 option.case octet_loop_four py_int_py_str_octet ..
  also have "\<dots> = Inr n"
    using octets_sum [of n] assms by simp
  finally have "IPv4Address_init (StrArg (IPv4Address_str \<lparr>ip = n\<rparr>)) = Inr \<lparr>ip = n\<rparr>"
    using assms by (simp add: check_range_def)
  moreover have "IPv4Address_init (IntArg n) = Inr \<lparr>ip = n\<rparr>"
    using assms by (simp add: check_range_def)
  ultimately show ?thesis
    by simp
qed

text \<open>C4: the theorem at 167772165, the address \<^verbatim>\<open>10.0.0.5\<close>.\<close>

theorem dotted_quad_round_trip_witness:
  "IPv4Address_init (IntArg 167772165) = Inr \<lparr>ip = 167772165\<rparr>
   \<and> IPv4Address_str \<lparr>ip = 167772165\<rparr> = ''10.0.0.5''
   \<and> IPv4Address_init (StrArg (IPv4Address_str \<lparr>ip = 167772165\<rparr>)) = Inr \<lparr>ip = 167772165\<rparr>"
proof -
  have h: "IPv4Address_str \<lparr>ip = 167772165\<rparr> = ''10.0.0.5''"
    by code_simp
  from dotted_quad_round_trip [of 167772165] h show ?thesis
    by simp
qed

text \<open>
  C8 (the value of a constructed address is in the 32-bit range). Whatever the
  argument, an integer or a string, an address that the constructor returns has a
  value from 0 to 2^32 - 1.
\<close>

theorem IPv4Address_init_range:
  "IPv4Address_init a = Inr x \<Longrightarrow> 0 \<le> ip x \<and> ip x \<le> 2 ^ 32 - 1"
  by (cases a) (auto simp: check_range_def split: sum.splits if_splits)

text \<open>C8: the theorem at the string \<^verbatim>\<open>10.0.0.5\<close> and at the integer 2^32 - 1.\<close>

theorem IPv4Address_init_range_witness:
  "IPv4Address_init (StrArg ''10.0.0.5'') = Inr \<lparr>ip = 167772165\<rparr>
   \<and> 0 \<le> ip \<lparr>ip = 167772165\<rparr> \<and> ip \<lparr>ip = 167772165\<rparr> \<le> 2 ^ 32 - 1
   \<and> IPv4Address_init (IntArg 4294967295) = Inr \<lparr>ip = 4294967295\<rparr>
   \<and> 0 \<le> ip \<lparr>ip = 4294967295\<rparr> \<and> ip \<lparr>ip = 4294967295\<rparr> \<le> 2 ^ 32 - 1"
proof -
  have h1: "IPv4Address_init (StrArg ''10.0.0.5'') = Inr \<lparr>ip = 167772165\<rparr>"
    by code_simp
  have h2: "IPv4Address_init (IntArg 4294967295) = Inr \<lparr>ip = 4294967295\<rparr>"
    by code_simp
  from IPv4Address_init_range [OF h1] IPv4Address_init_range [OF h2] h1 h2
  show ?thesis
    by blast
qed

end
